theory Spec2Isabelle
  imports Complex_Main "HOL-Library.Word" "HOL-Library.Log_Nat"
begin

unbundle bit_operations_syntax

section \<open>JavaScript numbers\<close>

text \<open>
  The generator of \<^verbatim>\<open>js/script.js\<close> computes on JavaScript numbers. A number is
  modelled as a real or one of the three special values of the language. Arithmetic on
  finite values is exact and the two zeros are one value, with one exception:
  \<^verbatim>\<open>seededRandom\<close> takes the floor of a sine scaled by ten to the tenth, so the rounding
  of its three arithmetic results decides what it returns, and they are rounded to the
  nearest double there. The rest of the generator rounds to one decimal, clamps and
  compares with tenths. The special values follow the ECMAScript rules for
  \<^verbatim>\<open>NaN\<close> and the infinities, which is where the behaviour of the generator at the
  tails is decided. The file holds two copies of the class \<^verbatim>\<open>DickSizeChecker\<close>, from
  line 7 and from line 669; what belongs to the second copy carries the suffix \<open>_2\<close>.
\<close>

datatype number = NaN | NegInf | Fin real | PosInf

fun n_neg :: "number \<Rightarrow> number" where
  "n_neg NaN = NaN"
| "n_neg NegInf = PosInf"
| "n_neg (Fin a) = Fin (- a)"
| "n_neg PosInf = NegInf"

fun n_add :: "number \<Rightarrow> number \<Rightarrow> number" where
  "n_add (Fin a) (Fin b) = Fin (a + b)"
| "n_add NaN _ = NaN"
| "n_add _ NaN = NaN"
| "n_add PosInf NegInf = NaN"
| "n_add NegInf PosInf = NaN"
| "n_add PosInf _ = PosInf"
| "n_add _ PosInf = PosInf"
| "n_add NegInf _ = NegInf"
| "n_add _ NegInf = NegInf"

definition n_sub :: "number \<Rightarrow> number \<Rightarrow> number" where
  "n_sub a b = n_add a (n_neg b)"

fun n_mul :: "number \<Rightarrow> number \<Rightarrow> number" where
  "n_mul (Fin a) (Fin b) = Fin (a * b)"
| "n_mul NaN _ = NaN"
| "n_mul _ NaN = NaN"
| "n_mul PosInf (Fin b) = (if b = 0 then NaN else if 0 < b then PosInf else NegInf)"
| "n_mul NegInf (Fin b) = (if b = 0 then NaN else if 0 < b then NegInf else PosInf)"
| "n_mul (Fin a) PosInf = (if a = 0 then NaN else if 0 < a then PosInf else NegInf)"
| "n_mul (Fin a) NegInf = (if a = 0 then NaN else if 0 < a then NegInf else PosInf)"
| "n_mul PosInf PosInf = PosInf"
| "n_mul NegInf NegInf = PosInf"
| "n_mul PosInf NegInf = NegInf"
| "n_mul NegInf PosInf = NegInf"

text \<open>
  Division by a zero takes the sign of the dividend (the divisor is read as \<^verbatim>\<open>+0\<close>);
  the generator only ever divides by the literals 1000, 10 and 2.
\<close>

fun n_div :: "number \<Rightarrow> number \<Rightarrow> number" where
  "n_div NaN _ = NaN"
| "n_div _ NaN = NaN"
| "n_div (Fin a) (Fin b) =
     (if b = 0 then (if a = 0 then NaN else if 0 < a then PosInf else NegInf)
      else Fin (a / b))"
| "n_div (Fin a) _ = Fin 0"
| "n_div PosInf (Fin b) = (if 0 \<le> b then PosInf else NegInf)"
| "n_div NegInf (Fin b) = (if 0 \<le> b then NegInf else PosInf)"
| "n_div _ _ = NaN"

text \<open>The remainder operator \<^verbatim>\<open>%\<close> truncates the quotient towards zero.\<close>

definition trunc_zero :: "real \<Rightarrow> int" where
  "trunc_zero x = (if 0 \<le> x then \<lfloor>x\<rfloor> else \<lceil>x\<rceil>)"

fun n_mod :: "number \<Rightarrow> number \<Rightarrow> number" where
  "n_mod (Fin a) (Fin b) = (if b = 0 then NaN else Fin (a - b * of_int (trunc_zero (a / b))))"
| "n_mod (Fin a) PosInf = Fin a"
| "n_mod (Fin a) NegInf = Fin a"
| "n_mod _ _ = NaN"

fun n_le :: "number \<Rightarrow> number \<Rightarrow> bool" where
  "n_le NaN _ = False"
| "n_le _ NaN = False"
| "n_le NegInf _ = True"
| "n_le _ PosInf = True"
| "n_le (Fin a) (Fin b) = (a \<le> b)"
| "n_le _ _ = False"

definition n_ge :: "number \<Rightarrow> number \<Rightarrow> bool" where
  "n_ge a b = n_le b a"

text \<open>Strict equality \<^verbatim>\<open>===\<close> on numbers: \<^verbatim>\<open>NaN\<close> equals nothing.\<close>

definition strict_eq :: "number \<Rightarrow> number \<Rightarrow> bool" where
  "strict_eq a b = (a \<noteq> NaN \<and> b \<noteq> NaN \<and> a = b)"

subsection \<open>The Math object\<close>

definition Math_max :: "number \<Rightarrow> number \<Rightarrow> number" where
  "Math_max a b = (if a = NaN \<or> b = NaN then NaN else if n_le a b then b else a)"

definition Math_min :: "number \<Rightarrow> number \<Rightarrow> number" where
  "Math_min a b = (if a = NaN \<or> b = NaN then NaN else if n_le a b then a else b)"

fun Math_floor :: "number \<Rightarrow> number" where
  "Math_floor (Fin a) = Fin (of_int \<lfloor>a\<rfloor>)"
| "Math_floor a = a"

text \<open>\<^verbatim>\<open>Math.round\<close> rounds to the nearest integer, a tie towards plus infinity.\<close>

fun Math_round :: "number \<Rightarrow> number" where
  "Math_round (Fin a) = Fin (of_int \<lfloor>a + 1 / 2\<rfloor>)"
| "Math_round a = a"

text \<open>
  \<^verbatim>\<open>Math.PI\<close> is the double nearest to the circle constant, a rational number.
\<close>

definition Math_PI :: number where
  "Math_PI = Fin (884279719003555 / 281474976710656)"

text \<open>
  The sine, cosine, logarithm and square root of the host are approximations that the
  language leaves to the implementation. They are parameters of the model: a value of
  type \<open>math\<close> gives the four functions on finite arguments (on positive arguments for
  the logarithm, on non-negative ones for the square root), and the wrappers below add
  the cases that ECMAScript fixes.
\<close>

record math =
  m_sin :: "real \<Rightarrow> real"
  m_cos :: "real \<Rightarrow> real"
  m_log :: "real \<Rightarrow> real"
  m_sqrt :: "real \<Rightarrow> real"

fun Math_sin :: "math \<Rightarrow> number \<Rightarrow> number" where
  "Math_sin M (Fin a) = Fin (m_sin M a)"
| "Math_sin M _ = NaN"

fun Math_cos :: "math \<Rightarrow> number \<Rightarrow> number" where
  "Math_cos M (Fin a) = Fin (m_cos M a)"
| "Math_cos M _ = NaN"

fun Math_log :: "math \<Rightarrow> number \<Rightarrow> number" where
  "Math_log M (Fin a) = (if a < 0 then NaN else if a = 0 then NegInf else Fin (m_log M a))"
| "Math_log M PosInf = PosInf"
| "Math_log M _ = NaN"

fun Math_sqrt :: "math \<Rightarrow> number \<Rightarrow> number" where
  "Math_sqrt M (Fin a) = (if a < 0 then NaN else Fin (m_sqrt M a))"
| "Math_sqrt M PosInf = PosInf"
| "Math_sqrt M _ = NaN"

subsection \<open>Rounding to the nearest double\<close>

text \<open>
  A finite double is an integer of at most 53 bits times a power of two, the exponent
  being at least \<open>-1074\<close>. \<open>fl\<close> rounds a real to the nearest such value, a tie to the
  even integer, as every arithmetic operation of the language does. \<open>expo\<close> is the
  binary exponent of a positive real, read off the bit length of its integer part or of
  the integer part of its inverse. The largest finite double is not modelled: \<open>fl\<close> is
  the rounding of binary64 on the values below it, and the values rounded here are
  products of a sine, which lies between \<open>-1\<close> and 1, with \<open>10000\<close> and \<open>1000000\<close>.
\<close>

definition rne :: "real \<Rightarrow> int" where
  "rne y =
     (let f = \<lfloor>y\<rfloor>; d = y - of_int f
      in if d < 1 / 2 then f else if 1 / 2 < d then f + 1 else if even f then f else f + 1)"

definition expo :: "real \<Rightarrow> int" where
  "expo x =
     (if 1 \<le> x then bitlen \<lfloor>x\<rfloor> - 1
      else (let L = bitlen \<lfloor>1 / x\<rfloor> - 1 in if x * 2 powi L = 1 then - L else - L - 1))"

definition fl :: "real \<Rightarrow> real" where
  "fl x =
     (if x = 0 then 0
      else (let u = 2 powi (max (expo \<bar>x\<bar>) (- 1022) - 52) in of_int (rne (x / u)) * u))"

fun to_double :: "number \<Rightarrow> number" where
  "to_double (Fin a) = Fin (fl a)"
| "to_double a = a"

section \<open>Strings and the 32-bit hash\<close>

text \<open>
  A string is a list of code units; the type \<open>char\<close> holds the code units 0 to 255, which
  covers every sanitised username. \<^verbatim>\<open>toLowerCase\<close> maps the capital letters of that
  range (A to Z, and the accented capitals 192 to 222 except the multiplication sign 215)
  to their small letters, 32 code units further.
\<close>

definition toLowerCase_char :: "char \<Rightarrow> char" where
  "toLowerCase_char c =
     (let n = (of_char c :: nat)
      in if (65 \<le> n \<and> n \<le> 90) \<or> (192 \<le> n \<and> n \<le> 222 \<and> n \<noteq> 215)
         then char_of (n + 32) else c)"

definition toLowerCase :: "string \<Rightarrow> string" where
  "toLowerCase s = map toLowerCase_char s"

text \<open>
  \<^verbatim>\<open>isValidUsername\<close>: the pattern \<^verbatim>\<open>/^[a-zA-Z0-9_]{1,15}$/\<close> and a length of at least 1.
\<close>

definition is_word_char :: "char \<Rightarrow> bool" where
  "is_word_char c =
     (let n = (of_char c :: nat)
      in (97 \<le> n \<and> n \<le> 122) \<or> (65 \<le> n \<and> n \<le> 90) \<or> (48 \<le> n \<and> n \<le> 57) \<or> n = 95)"

definition isValidUsername :: "string \<Rightarrow> bool" where
  "isValidUsername username =
     ((1 \<le> length username \<and> length username \<le> 15 \<and> list_all is_word_char username)
      \<and> length username \<ge> 1)"

text \<open>
  The bitwise operators work on 32-bit signed integers: \<open>ToInt32\<close> wraps an integer into
  \<open>[-2^31, 2^31)\<close>. The variable \<^verbatim>\<open>hash\<close> starts at 0 and leaves every round of the loop
  through \<^verbatim>\<open>hash & hash\<close>, so it is an integer throughout.
\<close>

definition ToInt32 :: "int \<Rightarrow> int" where
  "ToInt32 x = (let m = x mod 2 ^ 32 in if m \<ge> 2 ^ 31 then m - 2 ^ 32 else m)"

definition shift_left :: "int \<Rightarrow> nat \<Rightarrow> int" where
  "shift_left x k = ToInt32 (ToInt32 x * 2 ^ (k mod 32))"

definition bit_and :: "int \<Rightarrow> int \<Rightarrow> int" where
  "bit_and x y = ToInt32 x AND ToInt32 y"

text \<open>The loop of \<^verbatim>\<open>hashUsername\<close> (lines 361 to 365), one round per code unit.\<close>

fun hashLoop :: "int \<Rightarrow> string \<Rightarrow> int" where
  "hashLoop hash [] = hash"
| "hashLoop hash (c # str) =
     (let char = int (of_char c);
          hash1 = (shift_left hash 5 - hash) + char;
          hash2 = bit_and hash1 hash1
      in hashLoop hash2 str)"

definition hashUsername :: "string \<Rightarrow> number" where
  "hashUsername username =
     (let str = toLowerCase username
      in Fin (of_int \<bar>hashLoop 0 str\<bar>))"

text \<open>The second copy of the class (lines 986 to 997).\<close>

fun hashLoop_2 :: "int \<Rightarrow> string \<Rightarrow> int" where
  "hashLoop_2 hash [] = hash"
| "hashLoop_2 hash (c # str) =
     (let char = int (of_char c);
          hash1 = (shift_left hash 5 - hash) + char;
          hash2 = bit_and hash1 hash1
      in hashLoop_2 hash2 str)"

definition hashUsername_2 :: "string \<Rightarrow> number" where
  "hashUsername_2 username =
     (let str = toLowerCase username
      in Fin (of_int \<bar>hashLoop_2 0 str\<bar>))"

section \<open>The pseudo-random measurement\<close>

text \<open>
  \<^verbatim>\<open>seededRandom\<close> and \<^verbatim>\<open>normalDistribution\<close> (lines 373 to 393; lines 1002 to 1022
  of the second copy repeat them word for word). In \<^verbatim>\<open>seededRandom\<close> the product, the
  difference and the scaled value are each rounded to the nearest double: the floor of
  the last one depends on it. The two calls of \<^verbatim>\<open>Math.floor\<close> are exact in doubles as
  well.
\<close>

definition seededRandom :: "math \<Rightarrow> number \<Rightarrow> number" where
  "seededRandom M seed =
     (let x = to_double (n_mul (Math_sin M seed) (Fin 10000))
      in Math_floor (to_double (n_mul (to_double (n_sub x (Math_floor x))) (Fin 1000000))))"

definition normalDistribution :: "math \<Rightarrow> number \<Rightarrow> number \<Rightarrow> number \<Rightarrow> number \<Rightarrow> number" where
  "normalDistribution M seed min' max' mean =
     (let random1 = n_div (n_mod (seededRandom M seed) (Fin 1000)) (Fin 1000);
          random2 = n_div (n_mod (seededRandom M (n_add seed (Fin 1))) (Fin 1000)) (Fin 1000);
          normal = n_mul (Math_sqrt M (n_mul (Fin (- 2)) (Math_log M random1)))
                         (Math_cos M (n_mul (n_mul (Fin 2) Math_PI) random2));
          scaled = n_add (n_mul normal (Fin (12 / 10))) mean
      in Math_max min' (Math_min max' scaled))"

text \<open>\<^verbatim>\<open>calculatePercentile\<close> (lines 399 to 420, first copy only).\<close>

definition calculatePercentile :: "number \<Rightarrow> number" where
  "calculatePercentile size' =
     (let mean = Fin (65 / 10);
          stdDev = Fin 2;
          zScore = n_div (n_sub size' mean) stdDev
      in if n_le zScore (Fin (- 3)) then Fin 1
         else if n_ge zScore (Fin 3) then Fin 99
         else (let percentile = Math_round (n_add (Fin 50) (n_mul zScore (Fin (1667 / 100))))
               in Math_max (Fin 1) (Math_min (Fin 99) percentile)))"

section \<open>Categories and descriptions\<close>

text \<open>
  A category is a closed range and its descriptions; the field \<^verbatim>\<open>range\<close> is named
  \<open>crange\<close> here, and the two bounds of the array are a pair. The description texts are
  the source's, with each symbol outside ASCII written as its code point,
  \<^verbatim>\<open><U+1F575>\<close>. The tables are those of lines 21 to 94 and of lines 683 to 729.
\<close>

record category =
  crange :: "real \<times> real"
  descriptions :: "string list"

definition humorousDescriptions_1 :: "category list" where
  \<open>humorousDescriptions_1 =
   [
    \<lparr> crange = (1, 25 / 10),
      descriptions = [
        ''Micro but mighty! You're like a secret agent gadget - small, discreet, but probably saves the world daily! <U+1F575><U+FE0F>'',
        ''Minimalist masterpiece! You've embraced the 'less is more' philosophy. Probably a connoisseur of tiny house living! <U+1F3E0>'',
        ''Button-sized brilliance! Like a perfectly crafted espresso shot - small but packs an incredible punch! <U+2615>'',
        ''Stealth mode activated! You're the ninja of measurements - what you lack in size, you make up for in pure skill! <U+1F977>'' ] \<rparr>,
    \<lparr> crange = (26 / 10, 4),
      descriptions = [
        ''Compact and clever! Like a Swiss watch - small, precise, and probably worth more than people realize! <U+231A>'',
        ''Fun-size energy! You're the travel-size version of awesome - portable, efficient, and TSA-approved! <U+2708><U+FE0F>'',
        ''Bite-sized excellence! You've mastered the art of doing more with less. Efficiency expert level: Pro! <U+1F3AF>'',
        ''Pocket rocket vibes! Small engine, big performance. You're probably really good at parallel parking! <U+1F697>'' ] \<rparr>,
    \<lparr> crange = (41 / 10, 55 / 10),
      descriptions = [
        ''Solidly reliable! You're the Honda Civic of measurements - dependable, efficient, and surprisingly fun! <U+1F699>'',
        ''Classic proportions! Not too big, not too small - you're the Goldilocks zone of measurements! <U+1F43B>'',
        ''Perfectly standard! You represent the everyman with dignity and style. Democracy in action! <U+1F5F3><U+FE0F>'',
        ''Comfortable confidence! Like a good pair of jeans - fits just right and goes with everything! <U+1F456>'' ] \<rparr>,
    \<lparr> crange = (56 / 10, 7),
      descriptions = [
        ''Above average achievement! You're like premium coffee - that extra kick that makes everything better! <U+2615>'',
        ''Impressive balance! Perfect mix of confidence and humility. The Swiss Army knife of personalities! <U+1F527>'',
        ''Solid measurements! You probably read instruction manuals AND actually follow them. Respect! <U+1F4CB>'',
        ''Well-proportioned wisdom! You bring just the right amount of everything to the table! <U+1F37D><U+FE0F>'' ] \<rparr>,
    \<lparr> crange = (71 / 10, 85 / 10),
      descriptions = [
        ''Getting serious now! You're like a luxury sedan - spacious, comfortable, and makes people jealous! <U+1F699>'',
        ''Substantial presence! You probably give amazing hugs and have strong opinions about pizza toppings! <U+1F355>'',
        ''Confident proportions! You don't need to honk in traffic - your presence speaks for itself! <U+1F4EF>'',
        ''Generous dimensions! You probably tip well and remember everyone's birthday. Big heart energy! <U+1F49D>'' ] \<rparr>,
    \<lparr> crange = (86 / 10, 10),
      descriptions = [
        ''Seriously impressive! You're like a pickup truck - practical, powerful, and great at moving furniture! <U+1F6FB>'',
        ''Big league player! You probably have to duck through doorways and your personality fills rooms! <U+1F6AA>'',
        ''Major measurements! Living proof some people hit the genetic lottery. Great at reaching high shelves! <U+1F3B0>'',
        ''Gentle giant energy! Intimidating at first glance but probably gives the best bear hugs in history! <U+1F43B>'' ] \<rparr>,
    \<lparr> crange = (101 / 10, 115 / 10),
      descriptions = [
        ''Legendary status unlocked! You're like a monster truck - impressive, powerful, and turns heads everywhere! <U+1F69B>'',
        ''Absolutely massive! You probably need custom everything and your shadow has its own zip code! <U+1F318>'',
        ''Epic proportions! You're basically a walking conversation starter. Airport security probably knows you by name! <U+1F6C2>'',
        ''Titan-level measurements! You're the final boss of measurements. Probably need a permit for that thing! <U+1F4DC>'' ] \<rparr>,
    \<lparr> crange = (116 / 10, 13),
      descriptions = [
        ''MAXIMUM OVERDRIVE! You've transcended human measurements and entered mythical territory! <U+1F409>'',
        ''Cosmic-level proportions! NASA probably wants to study you. You're basically a natural wonder! <U+1F30C>'',
        ''Legendary mythical status! Ancient civilizations would have written epic poems about your measurements! <U+1F4DC>'',
        ''Ultimate final form! You've maxed out the character creation slider. Probably need planning permission! <U+1F3D7><U+FE0F>'' ] \<rparr> ]\<close>

definition humorousDescriptions_2 :: "category list" where
  \<open>humorousDescriptions_2 =
   [
    \<lparr> crange = (3, 4),
      descriptions = [
        ''Small but mighty! Like a fun-size candy bar - concentrated goodness that packs a punch. Quality over quantity, my friend! <U+1F36C>'',
        ''A perfectly compact package! Sometimes the best things come in smaller sizes. You're probably really good with your hands! <U+1F44C>'',
        ''Bite-sized excellence! You've mastered the art of efficiency. Why use more when less gets the job done perfectly? <U+1F3AF>'',
        ''Pocket rocket! Small, portable, and probably gets invited to more parties. You're the life-size action figure of personalities! <U+1F680>'' ] \<rparr>,
    \<lparr> crange = (41 / 10, 55 / 10),
      descriptions = [
        ''Solidly average and proud of it! You're the reliable Honda Civic of personalities - dependable, efficient, and surprisingly fun! <U+1F697>'',
        ''Right in the sweet spot! Not too much, not too little - you're the Goldilocks of measurements. Just right for any situation! <U+1F43B>'',
        ''Perfectly standard! You're like a good pair of jeans - comfortable, reliable, and suitable for most occasions. Classic choice! <U+1F456>'',
        ''The people's champion! You represent the everyman with dignity and style. Democracy in action, my friend! <U+1F5F3><U+FE0F>'' ] \<rparr>,
    \<lparr> crange = (56 / 10, 7),
      descriptions = [
        ''Above average and loving life! You're like a premium coffee - a little extra kick that makes everything better! <U+2615>'',
        ''Impressive proportions! You've got that perfect balance of confidence and humility. The Swiss Army knife of personalities! <U+1F527>'',
        ''Solid measurements! You're probably the type who reads instruction manuals and actually follows them. Respect! <U+1F4CB>'',
        ''Well-endowed in the personality department! You bring just the right amount of everything to the table. Balanced diet of awesomeness! <U+1F37D><U+FE0F>'' ] \<rparr>,
    \<lparr> crange = (71 / 10, 85 / 10),
      descriptions = [
        ''Getting into impressive territory! You're like a luxury sedan - spacious, comfortable, and makes people a little jealous! <U+1F699>'',
        ''Substantial measurements! You probably give great hugs and have strong opinions about pizza toppings. Living your best life! <U+1F355>'',
        ''Confidently proportioned! You're the type who doesn't need to honk in traffic - your presence speaks for itself! <U+1F4EF>'',
        ''Generous dimensions! You probably tip well and remember people's birthdays. Big heart, big personality! <U+1F49D>'' ] \<rparr>,
    \<lparr> crange = (86 / 10, 10),
      descriptions = [
        ''Absolutely massive energy! You're like a pickup truck - practical, powerful, and probably really good at moving furniture! <U+1F6FB>'',
        ''Legendary proportions! You probably have to duck through doorways and your personality fills entire rooms! <U+1F6AA>'',
        ''Maximum measurements! You're living proof that some people just hit the genetic lottery. Probably great at reaching high shelves! <U+1F3B0>'',
        ''Enormous presence! You're like a gentle giant - intimidating at first glance but probably gives the best bear hugs in history! <U+1F43B>'' ] \<rparr> ]\<close>


text \<open>The value returned when no category matches (lines 433 to 434).\<close>

definition fallback :: string where
  "fallback = ''You're absolutely unique and that's what makes you special! <U+1F31F>''"

text \<open>
  Reading an array at a number: an element when the number is an index of the array,
  \<^verbatim>\<open>undefined\<close> (here \<open>None\<close>) otherwise; no read of an array raises.
\<close>

fun array_get :: "'a list \<Rightarrow> number \<Rightarrow> 'a option" where
  "array_get xs (Fin i) =
     (if 0 \<le> i \<and> of_int \<lfloor>i\<rfloor> = i \<and> i < real (length xs) then Some (xs ! nat \<lfloor>i\<rfloor>) else None)"
| "array_get xs _ = None"

definition in_range :: "number \<Rightarrow> category \<Rightarrow> bool" where
  "in_range size' category =
     (n_ge size' (Fin (fst (crange category))) \<and> n_le size' (Fin (snd (crange category))))"

text \<open>
  The loop of \<^verbatim>\<open>getDescriptionForSize\<close> (lines 425 to 435, and 1027 to 1037) over
  \<^verbatim>\<open>this.humorousDescriptions\<close>, in the order of the list.
\<close>

fun getDescriptionLoop :: "category list \<Rightarrow> number \<Rightarrow> number \<Rightarrow> string option" where
  "getDescriptionLoop [] size' hash = Some fallback"
| "getDescriptionLoop (category # rest) size' hash =
     (if in_range size' category
      then (let index = n_mod hash (Fin (real (length (descriptions category))))
            in array_get (descriptions category) index)
      else getDescriptionLoop rest size' hash)"

section \<open>The object and its results\<close>

text \<open>
  The result of the second copy has four fields; the first copy adds the measurement
  before conversion and the percentile. The fields carry the prefix \<open>r_\<close>, the local
  variables of the methods keep their names. The object keeps the category table, set once by
  the constructor, and the results last displayed.
\<close>

record results =
  r_size :: number
  r_unit :: string
  r_confidence :: number
  r_description :: "string option"

record results_1 = results +
  r_originalSize :: number
  r_percentile :: number

record 'r checker =
  humorousDescriptions :: "category list"
  currentResults :: "(string \<times> 'r) option"

definition DickSizeChecker :: "results_1 checker" where
  "DickSizeChecker = \<lparr> humorousDescriptions = humorousDescriptions_1, currentResults = None \<rparr>"

definition DickSizeChecker_2 :: "results checker" where
  "DickSizeChecker_2 = \<lparr> humorousDescriptions = humorousDescriptions_2, currentResults = None \<rparr>"

definition getDescriptionForSize :: "'r checker \<Rightarrow> number \<Rightarrow> number \<Rightarrow> string option" where
  "getDescriptionForSize this size' hash = getDescriptionLoop (humorousDescriptions this) size' hash"

text \<open>\<^verbatim>\<open>generateResults\<close> of the first copy (lines 325 to 352).\<close>

definition generateResults :: "math \<Rightarrow> 'r checker \<Rightarrow> string \<Rightarrow> results_1" where
  "generateResults M this username =
     (let hash = hashUsername username;
          sizeFloat = normalDistribution M hash (Fin 1) (Fin 13) (Fin (65 / 10));
          size' = n_div (Math_round (n_mul sizeFloat (Fin 10))) (Fin 10);
          confidence = Math_floor (n_add (Fin 75) (n_mod hash (Fin 25)));
          description = getDescriptionForSize this size' hash;
          percentile = calculatePercentile size';
          useMetric = strict_eq (n_mod hash (Fin 10)) (Fin 0)
      in \<lparr> r_size = (if useMetric
                     then n_div (Math_round (n_mul (n_mul size' (Fin (254 / 100))) (Fin 10))) (Fin 10)
                     else size'),
           r_unit = (if useMetric then ''cm'' else ''inches''),
           r_confidence = confidence,
           r_description = description,
           r_originalSize = size',
           r_percentile = percentile \<rparr>)"

text \<open>\<^verbatim>\<open>generateResults\<close> of the second copy (lines 959 to 981).\<close>

definition generateResults_2 :: "math \<Rightarrow> 'r checker \<Rightarrow> string \<Rightarrow> results" where
  "generateResults_2 M this username =
     (let hash = hashUsername_2 username;
          sizeFloat = normalDistribution M hash (Fin 3) (Fin 10) (Fin (65 / 10));
          size' = n_div (Math_round (n_mul sizeFloat (Fin 10))) (Fin 10);
          confidence = Math_floor (n_add (Fin 75) (n_mod hash (Fin 25)));
          description = getDescriptionForSize this size' hash;
          useMetric = strict_eq (n_mod hash (Fin 10)) (Fin 0)
      in \<lparr> r_size = (if useMetric
                     then n_div (Math_round (n_mul (n_mul size' (Fin (254 / 100))) (Fin 10))) (Fin 10)
                     else size'),
           r_unit = (if useMetric then ''cm'' else ''inches''),
           r_confidence = confidence,
           r_description = description \<rparr>)"

text \<open>
  The two methods that write the object: \<^verbatim>\<open>displayResults\<close> stores the results with the
  username, \<^verbatim>\<open>resetToInitialState\<close> clears them. Their writes to the page are left out.
\<close>

definition displayResults :: "'r checker \<Rightarrow> string \<Rightarrow> 'r \<Rightarrow> 'r checker" where
  "displayResults this username res = this\<lparr> currentResults := Some (username, res) \<rparr>"

definition resetToInitialState :: "'r checker \<Rightarrow> 'r checker" where
  "resetToInitialState this = this\<lparr> currentResults := None \<rparr>"

section \<open>The operations as the specification words them\<close>

text \<open>
  The hash of the specification: over the code units of the lower-cased string,
  \<open>h = h * 31 + c\<close> in 32-bit arithmetic that wraps around, read as a signed value at the
  end, of which the absolute value is returned.
\<close>

definition hash_spec :: "string \<Rightarrow> int" where
  "hash_spec identifier =
     \<bar>sint (fold (\<lambda>c h. h * 31 + of_nat (of_char c)) (toLowerCase identifier) (0 :: 32 word))\<bar>"

text \<open>The same accumulation written with the shift: \<open>((h << 5) - h) + c\<close>.\<close>

definition hash_spec_shift :: "string \<Rightarrow> int" where
  "hash_spec_shift identifier =
     \<bar>sint (fold (\<lambda>c h. (push_bit 5 h - h) + of_nat (of_char c)) (toLowerCase identifier)
        (0 :: 32 word))\<bar>"


text \<open>
  The same formula in double arithmetic: the product, the fractional part and the scaled
  value are rounded to the nearest double before the floor is taken.
\<close>

definition seededRandom_double :: "real \<Rightarrow> int" where
  "seededRandom_double s =
     (let x = fl (s * 10000)
      in \<lfloor>fl (fl (x - of_int \<lfloor>x\<rfloor>) * 1000000)\<rfloor>)"

text \<open>
  Rounding to one decimal digit, the nearest tenth with a tie upwards; a value that is
  not finite stays as it is.
\<close>

definition round1 :: "number \<Rightarrow> number" where
  "round1 v = (case v of Fin x \<Rightarrow> Fin (of_int (round (x * 10)) / 10) | _ \<Rightarrow> v)"

text \<open>
  The percentile of the specification: the z-score against mean 6.5 and deviation 2,
  1 and 99 at the tails, and in between \<open>round (50 + z * 16.67)\<close> clamped to 1 and 99.
\<close>

definition percentile_spec :: "real \<Rightarrow> int" where
  "percentile_spec measurement =
     (let z = (measurement - 65 / 10) / 2
      in if z \<le> - 3 then 1 else if z \<ge> 3 then 99
         else max 1 (min 99 (round (50 + z * (1667 / 100)))))"

text \<open>
  Upper-casing, which the source never calls, for the statement of case insensitivity.
  Only the letters a to z are mapped; this is \<^verbatim>\<open>toUpperCase\<close> on the characters of a
  valid username, not beyond them.
\<close>

definition toUpperCase_char :: "char \<Rightarrow> char" where
  "toUpperCase_char c =
     (let n = (of_char c :: nat)
      in if 97 \<le> n \<and> n \<le> 122 then char_of (n - 32) else c)"

definition toUpperCase :: "string \<Rightarrow> string" where
  "toUpperCase s = map toUpperCase_char s"

text \<open>
  Ranges that follow one another on the grid of tenths: each range starts one tenth
  after the end of the range before it.
\<close>

fun contiguous :: "category list \<Rightarrow> bool" where
  "contiguous (c # d # cs) = (fst (crange d) = snd (crange c) + 1 / 10 \<and> contiguous (d # cs))"
| "contiguous _ = True"

section \<open>Hosts\<close>

text \<open>
  Two properties of the host's functions decide whether the measurement is a number.
  The logarithm of a value strictly between 0 and 1 is not positive, so that the square
  root is taken of a non-negative value. The cosine of a rational argument is never zero:
  when the first uniform sample is 0, its logarithm is minus infinity, the square root
  is infinity, and infinity times a zero cosine would be \<^verbatim>\<open>NaN\<close>, which passes through
  \<^verbatim>\<open>Math.min\<close> and \<^verbatim>\<open>Math.max\<close>. Every double is a rational and no rational is an odd
  multiple of a quarter turn, so the exact cosine has both properties, and so has an
  implementation that does not round a non-zero cosine to zero.
\<close>

definition Math_regular :: "math \<Rightarrow> bool" where
  "Math_regular M =
     ((\<forall>x. 0 < x \<and> x < 1 \<longrightarrow> m_log M x \<le> 0) \<and> (\<forall>x \<in> \<rat>. m_cos M x \<noteq> 0))"

text \<open>
  A host on which every term of the model evaluates: its sine is 0, so both uniform
  samples are 0 and the infinite branch of the transform is the one taken.
\<close>

definition Math_flat :: math where
  "Math_flat = \<lparr> m_sin = (\<lambda>x. 0), m_cos = (\<lambda>x. 1), m_log = (\<lambda>x. 0), m_sqrt = (\<lambda>x. x) \<rparr>"

text \<open>A host that differs from it in the cosine, which is 0 everywhere.\<close>

definition Math_zero_cosine :: math where
  "Math_zero_cosine = Math_flat \<lparr> m_cos := (\<lambda>x. 0) \<rparr>"



section \<open>The hash\<close>

lemma ToInt32_shift: "ToInt32 x = (x + 2 ^ 31) mod 2 ^ 32 - 2 ^ 31"
proof -
  define m where "m = x mod 2 ^ 32"
  have m: "0 \<le> m" "m < 4294967296"
    by (simp_all add: m_def)
  have "(x + 2 ^ 31) mod 2 ^ 32 = (m + 2147483648) mod 4294967296"
    by (simp add: m_def mod_add_left_eq)
  also have "\<dots> = (if m \<ge> 2147483648 then m - 2147483648 else m + 2147483648)"
  proof (cases "m \<ge> 2147483648")
    case True
    have "(m + 2147483648) mod 4294967296 = (m - 2147483648 + 4294967296) mod 4294967296"
      by (rule arg_cong [where f = "\<lambda>y. y mod 4294967296"]) simp
    also have "\<dots> = (m - 2147483648) mod 4294967296"
      by (simp only: mod_add_self2)
    also have "\<dots> = m - 2147483648"
      using True m by (intro mod_pos_pos_trivial) simp_all
    finally show ?thesis using True by simp
  next
    case False
    then have "(m + 2147483648) mod 4294967296 = m + 2147483648"
      using m by (intro mod_pos_pos_trivial) simp_all
    then show ?thesis using False by simp
  qed
  finally have e: "(x + 2 ^ 31) mod 2 ^ 32 =
      (if m \<ge> 2147483648 then m - 2147483648 else m + 2147483648)" .
  have r: "ToInt32 x = (if m \<ge> 2147483648 then m - 4294967296 else m)"
    by (simp add: ToInt32_def Let_def m_def)
  show ?thesis
    unfolding r e by simp
qed

lemma ToInt32_sint: "ToInt32 x = sint (word_of_int x :: 32 word)"
proof -
  have "sint (word_of_int x :: 32 word) = signed_take_bit 31 x"
    by (simp add: sint_sbintrunc')
  also have "\<dots> = take_bit 32 (x + 2 ^ 31) - 2 ^ 31"
    by (simp add: signed_take_bit_eq_take_bit_shift)
  also have "\<dots> = (x + 2 ^ 31) mod 2 ^ 32 - 2 ^ 31"
    by (simp add: take_bit_eq_mod)
  finally show ?thesis by (simp add: ToInt32_shift)
qed

lemma word_of_ToInt32: "(word_of_int (ToInt32 x) :: 32 word) = word_of_int x"
  by (simp add: ToInt32_sint)

lemma bit_and_self: "bit_and x x = ToInt32 x"
  by (simp add: bit_and_def)

lemma word_shift_left_5: "(word_of_int (shift_left x 5) :: 32 word) = word_of_int x * 32"
  by (simp add: shift_left_def word_of_ToInt32)

lemma hashLoop_word:
  "(word_of_int (hashLoop h s) :: 32 word) =
     fold (\<lambda>c w. w * 31 + of_nat (of_char c)) s (word_of_int h)"
proof (induction s arbitrary: h)
  case Nil
  then show ?case by simp
next
  case (Cons c s)
  have "(word_of_int (bit_and (shift_left h 5 - h + int (of_char c))
            (shift_left h 5 - h + int (of_char c))) :: 32 word)
      = word_of_int h * 31 + of_nat (of_char c)"
    by (simp add: bit_and_self word_of_ToInt32 word_shift_left_5)
  then show ?case
    by (simp add: Let_def Cons.IH)
qed

lemma hashLoop_int32: "ToInt32 h = h \<Longrightarrow> ToInt32 (hashLoop h s) = hashLoop h s"
  by (induction s arbitrary: h) (simp_all add: Let_def bit_and_self ToInt32_sint)

lemma hashLoop_sint:
  "hashLoop 0 s = sint (fold (\<lambda>c w. w * 31 + of_nat (of_char c)) s (0 :: 32 word))"
proof -
  have "hashLoop 0 s = ToInt32 (hashLoop 0 s)"
    by (rule hashLoop_int32 [symmetric]) (simp add: ToInt32_def)
  also have "\<dots> = sint (word_of_int (hashLoop 0 s) :: 32 word)"
    by (rule ToInt32_sint)
  finally show ?thesis by (simp add: hashLoop_word)
qed

lemma hashUsername_word: "hashUsername s = Fin (of_int (hash_spec s))"
  by (simp add: hashUsername_def hash_spec_def hashLoop_sint)

lemma hash_spec_shift_eq: "hash_spec_shift s = hash_spec s"
proof -
  have "(\<lambda>c (h :: 32 word). (push_bit 5 h - h) + of_nat (of_char c))
      = (\<lambda>c h. h * 31 + of_nat (of_char c))"
    by (intro ext) (simp add: push_bit_eq_mult)
  then show ?thesis
    by (simp add: hash_spec_shift_def hash_spec_def)
qed

lemma hash_spec_bounds: "0 \<le> hash_spec s" "hash_spec s \<le> 2 ^ 31"
proof -
  show "0 \<le> hash_spec s"
    by (simp add: hash_spec_def)
  have "\<bar>sint w\<bar> \<le> 2 ^ 31" for w :: "32 word"
    using sint_ge [of w] sint_lt [of w] by simp
  then show "hash_spec s \<le> 2 ^ 31"
    unfolding hash_spec_def by blast
qed

text \<open>
  C6. \<^verbatim>\<open>hashUsername\<close> returns, for every string, the hash of the specification: the
  accumulation \<open>h * 31 + c\<close> over the code units of the lower-cased string in wrapping
  32-bit signed arithmetic, which is the accumulation \<open>((h << 5) - h) + c\<close>, and of its
  final value the absolute value. The function is total, its result is a finite integer
  between 0 and \<open>2^31\<close>, and the empty string hashes to 0.
\<close>

theorem hashUsername_refines_spec:
  "hashUsername s = Fin (of_int (hash_spec s))
   \<and> hash_spec s = hash_spec_shift s
   \<and> 0 \<le> hash_spec s \<and> hash_spec s \<le> 2 ^ 31
   \<and> hashUsername [] = Fin 0"
proof -
  have "hashUsername [] = Fin 0"
    by (simp add: hashUsername_def toLowerCase_def)
  then show ?thesis
    using hashUsername_word [of s] hash_spec_shift_eq [of s] hash_spec_bounds [of s]
    by simp
qed

lemma hashLoop_2_eq: "hashLoop_2 h s = hashLoop h s"
  by (induction s arbitrary: h) (simp_all add: Let_def)

lemma hashUsername_2_word: "hashUsername_2 s = Fin (of_int (hash_spec s))"
  by (simp add: hashUsername_2_def hash_spec_def hashLoop_2_eq hashLoop_sint)

text \<open>
  C10. The two copies of \<^verbatim>\<open>hashUsername\<close> compute the same hash for every username.
\<close>

theorem hashUsername_copies_equal: "hashUsername_2 username = hashUsername username"
  by (simp add: hashUsername_2_def hashUsername_def hashLoop_2_eq)

section \<open>Case folding\<close>

lemma toLowerCase_char_idem: "toLowerCase_char (toLowerCase_char c) = toLowerCase_char c"
proof -
  define n where "n = (of_char c :: nat)"
  show ?thesis
  proof (cases "(65 \<le> n \<and> n \<le> 90) \<or> (192 \<le> n \<and> n \<le> 222 \<and> n \<noteq> 215)")
    case True
    then have l: "toLowerCase_char c = char_of (n + 32)"
      by (simp add: toLowerCase_char_def Let_def n_def)
    have "(of_char (char_of (n + 32) :: char) :: nat) = n + 32"
      using True by auto
    then have "toLowerCase_char (char_of (n + 32)) = char_of (n + 32)"
      using True by (auto simp: toLowerCase_char_def Let_def)
    then show ?thesis
      by (simp add: l)
  next
    case False
    then have "toLowerCase_char c = c"
      by (auto simp: toLowerCase_char_def Let_def n_def)
    then show ?thesis by simp
  qed
qed

lemma toLowerCase_idem: "toLowerCase (toLowerCase s) = toLowerCase s"
  by (simp add: toLowerCase_def toLowerCase_char_idem)

lemma toLowerCase_toUpperCase_char: "toLowerCase_char (toUpperCase_char c) = toLowerCase_char c"
proof -
  define n where "n = (of_char c :: nat)"
  show ?thesis
  proof (cases "97 \<le> n \<and> n \<le> 122")
    case True
    then have u: "toUpperCase_char c = char_of (n - 32)"
      by (simp add: toUpperCase_char_def Let_def n_def)
    have "(of_char (char_of (n - 32) :: char) :: nat) = n - 32"
      using True by auto
    then have "toLowerCase_char (char_of (n - 32)) = char_of (n - 32 + 32)"
      using True by (auto simp: toLowerCase_char_def Let_def)
    also have "\<dots> = c"
      using True by (simp add: n_def)
    also have "\<dots> = toLowerCase_char c"
      using True by (simp add: toLowerCase_char_def Let_def n_def [symmetric])
    finally show ?thesis
      by (simp add: u)
  next
    case False
    then have "toUpperCase_char c = c"
      by (auto simp: toUpperCase_char_def Let_def n_def)
    then show ?thesis by simp
  qed
qed

lemma toLowerCase_toUpperCase: "toLowerCase (toUpperCase s) = toLowerCase s"
  by (simp add: toLowerCase_def toUpperCase_def toLowerCase_toUpperCase_char)

lemma hash_spec_lower: "hash_spec (toLowerCase s) = hash_spec s"
  by (simp add: hash_spec_def toLowerCase_idem)

lemma hash_spec_upper: "hash_spec (toUpperCase s) = hash_spec s"
  by (simp add: hash_spec_def toLowerCase_toUpperCase)

lemma valid_alice: "isValidUsername ''alice''"
  by (simp add: isValidUsername_def is_word_char_def)

lemma valid_Foo: "isValidUsername ''Foo''"
  by (simp add: isValidUsername_def is_word_char_def)

lemma valid_bob: "isValidUsername ''bob''"
  by (simp add: isValidUsername_def is_word_char_def)

lemma hash_spec_alice: "hash_spec ''alice'' = 92903040"
  by (simp add: hash_spec_def toLowerCase_def toLowerCase_char_def)

lemma hash_spec_bob: "hash_spec ''bob'' = 97717"
  by (simp add: hash_spec_def toLowerCase_def toLowerCase_char_def)

section \<open>Rounding\<close>

lemma pow_bitlen:
  assumes "0 < n"
  shows "2 powi (bitlen n - 1) \<le> (of_int n :: real)" "(of_int n :: real) < 2 powi (bitlen n)"
proof -
  have b: "1 \<le> bitlen n"
    using assms bitlen_eq_zero_iff [of n] bitlen_nonneg [of n] by linarith
  have "(2 :: int) ^ nat (bitlen n - 1) \<le> n" "n < 2 ^ nat (bitlen n)"
    using bitlen_bounds [OF assms] by simp_all
  then have "(of_int ((2 :: int) ^ nat (bitlen n - 1)) :: real) \<le> of_int n"
      "(of_int n :: real) < of_int (2 ^ nat (bitlen n))"
    by (simp_all only: of_int_le_iff of_int_less_iff)
  then show "2 powi (bitlen n - 1) \<le> (of_int n :: real)" "(of_int n :: real) < 2 powi (bitlen n)"
    using b by (simp_all add: power_int_def)
qed

lemma expo_bounds:
  assumes "0 < x"
  shows "2 powi (expo x) \<le> x \<and> x < 2 powi (expo x + 1)"
proof (cases "1 \<le> x")
  case True
  define n where "n = \<lfloor>x\<rfloor>"
  have n: "0 < n" "of_int n \<le> x" "x < of_int n + 1"
    using True by (simp_all add: n_def)
  have e: "expo x = bitlen n - 1"
    using True by (simp add: expo_def n_def)
  have "2 powi (bitlen n - 1) \<le> x"
    using pow_bitlen(1) [OF n(1)] n(2) by linarith
  moreover have "x < 2 powi (bitlen n)"
  proof -
    have "n + 1 \<le> 2 ^ nat (bitlen n)"
      using bitlen_bounds [OF n(1)] by simp
    then have "(of_int (n + 1) :: real) \<le> of_int (2 ^ nat (bitlen n))"
      by (simp only: of_int_le_iff)
    moreover have "0 \<le> bitlen n"
      by (rule bitlen_nonneg)
    ultimately have "of_int n + 1 \<le> (2 :: real) powi (bitlen n)"
      by (simp add: power_int_def)
    then show ?thesis using n(3) by linarith
  qed
  ultimately show ?thesis
    by (simp add: e)
next
  case False
  define t where "t = 1 / x"
  define n where "n = \<lfloor>t\<rfloor>"
  define L where "L = bitlen n - 1"
  have t: "1 < t"
    using False assms by (simp add: t_def)
  have n: "0 < n" "of_int n \<le> t" "t < of_int n + 1"
    using t by (simp_all add: n_def)
  have lo: "2 powi L \<le> t"
    using pow_bitlen(1) [OF n(1)] n(2) unfolding L_def by linarith
  have hi: "t < 2 powi (L + 1)"
  proof -
    have "n + 1 \<le> 2 ^ nat (bitlen n)"
      using bitlen_bounds [OF n(1)] by simp
    then have "(of_int (n + 1) :: real) \<le> of_int (2 ^ nat (bitlen n))"
      by (simp only: of_int_le_iff)
    moreover have "0 \<le> bitlen n"
      by (rule bitlen_nonneg)
    ultimately have "of_int n + 1 \<le> (2 :: real) powi (bitlen n)"
      by (simp add: power_int_def)
    then show ?thesis using n(3) by (simp add: L_def)
  qed
  have x: "x = 1 / t"
    using assms by (simp add: t_def)
  have p: "(0 :: real) < 2 powi k" for k
    by simp
  have xle: "x \<le> 2 powi (- L)"
  proof -
    have "1 / t \<le> 1 / 2 powi L"
      using lo p [of L] by (intro divide_left_mono) (simp_all add: t [THEN less_imp_le] mult_pos_pos less_le_trans [OF p lo])
    then show ?thesis
      by (simp add: x power_int_minus field_simps)
  qed
  have xgt: "2 powi (- L - 1) < x"
  proof -
    have "1 / 2 powi (L + 1) < 1 / t"
      using hi t by (intro divide_strict_left_mono) (simp_all add: mult_pos_pos)
    moreover have "(2 :: real) powi (- L - 1) = 1 / 2 powi (L + 1)"
    proof -
      have "- L - 1 = - (L + 1)" by simp
      then have "(2 :: real) powi (- L - 1) = inverse (2 powi (L + 1))"
        by (simp only: power_int_minus)
      then show ?thesis by (simp add: inverse_eq_divide)
    qed
    ultimately show ?thesis
      by (simp add: x)
  qed
  have e: "expo x = (if x * 2 powi L = 1 then - L else - L - 1)"
    using False by (simp add: expo_def Let_def L_def n_def t_def)
  show ?thesis
  proof (cases "x * 2 powi L = 1")
    case True
    then have xeq: "x = 2 powi (- L)"
      by (simp add: power_int_minus field_simps)
    have lt: "(2 :: real) powi (- L) < 2 powi (- L + 1)"
      by (intro power_int_strict_increasing) simp_all
    have e': "expo x = - L"
      using True by (simp add: e)
    have a: "2 powi (- L) \<le> x"
      using xeq by linarith
    have b: "x < 2 powi (- L + 1)"
      using xeq lt by linarith
    show ?thesis
      unfolding e' using a b by blast
  next
    case False
    then have "x \<noteq> 2 powi (- L)"
      by (auto simp: power_int_minus field_simps)
    then have "x < 2 powi (- L)"
      using xle by simp
    then show ?thesis
      using False xgt by (simp add: e less_imp_le)
  qed
qed

lemma expo_less:
  assumes "0 < x" "x < 2 powi k"
  shows "expo x < k"
proof (rule ccontr)
  assume "\<not> expo x < k"
  then have "(2 :: real) powi k \<le> 2 powi (expo x)"
    by (intro power_int_increasing) simp_all
  then show False
    using expo_bounds [OF assms(1)] assms(2) by linarith
qed


lemma rne_cases: "rne y = \<lfloor>y\<rfloor> \<or> rne y = \<lfloor>y\<rfloor> + 1"
  by (simp add: rne_def Let_def)

lemma rne_of_int: "rne (of_int n) = n"
  by (simp add: rne_def Let_def)

lemma rne_le_int:
  assumes "y \<le> of_int n"
  shows "rne y \<le> n"
proof (cases "y = of_int \<lfloor>y\<rfloor>")
  case True
  then have "rne y = \<lfloor>y\<rfloor>"
    using rne_of_int [of "\<lfloor>y\<rfloor>"] by simp
  then show ?thesis
    using assms by (simp add: floor_le_iff)
next
  case False
  then have "of_int \<lfloor>y\<rfloor> < y"
    using of_int_floor_le [of y] by linarith
  then have "of_int \<lfloor>y\<rfloor> < (of_int n :: real)"
    using assms by linarith
  then have "\<lfloor>y\<rfloor> < n"
    by (simp only: of_int_less_iff)
  then show ?thesis
    using rne_cases [of y] by linarith
qed

lemma rne_nonneg: "0 \<le> y \<Longrightarrow> 0 \<le> rne y"
proof -
  assume "0 \<le> y"
  then have "0 \<le> \<lfloor>y\<rfloor>" by simp
  then show ?thesis
    using rne_cases [of y] by linarith
qed

lemma rne_nonpos: "y \<le> 0 \<Longrightarrow> rne y \<le> 0"
  using rne_le_int [of y 0] by simp

lemma fl_nonneg:
  assumes "0 \<le> x"
  shows "0 \<le> fl x"
proof (cases "x = 0")
  case True
  then show ?thesis by (simp add: fl_def)
next
  case False
  define u :: real where "u = 2 powi (max (expo \<bar>x\<bar>) (- 1022) - 52)"
  have u: "0 < u" by (simp add: u_def)
  have "0 \<le> x / u" using assms u by simp
  then have "0 \<le> rne (x / u)" by (rule rne_nonneg)
  then have "0 \<le> of_int (rne (x / u)) * u"
    using u by simp
  then show ?thesis
    using False by (simp add: fl_def Let_def u_def)
qed

lemma fl_nonpos:
  assumes "x \<le> 0"
  shows "fl x \<le> 0"
proof (cases "x = 0")
  case True
  then show ?thesis by (simp add: fl_def)
next
  case False
  define u :: real where "u = 2 powi (max (expo \<bar>x\<bar>) (- 1022) - 52)"
  have u: "0 < u" by (simp add: u_def)
  have "x / u \<le> 0" using assms u by (simp add: divide_le_0_iff)
  then have "rne (x / u) \<le> 0" by (rule rne_nonpos)
  then have "of_int (rne (x / u)) * u \<le> 0"
    using u by (simp add: mult_le_0_iff)
  then show ?thesis
    using False by (simp add: fl_def Let_def u_def)
qed

text \<open>Rounding never passes a double: a real below a double rounds to at most that double.\<close>

lemma fl_le_double:
  assumes "x \<le> of_int N * 2 powi c" "0 < N" "- 1074 \<le> c"
    and "(of_int N :: real) * 2 powi c < 2 powi (c + 53)"
  shows "fl x \<le> of_int N * 2 powi c"
proof (cases "x \<le> 0")
  case True
  have "fl x \<le> 0" using True by (rule fl_nonpos)
  moreover have "(0 :: real) \<le> of_int N * 2 powi c"
    using assms(2) by simp
  ultimately show ?thesis by linarith
next
  case False
  then have x: "0 < x" by simp
  define m where "m = max (expo \<bar>x\<bar>) (- 1022) - 52"
  define u :: real where "u = 2 powi m"
  have u: "0 < u" by (simp add: u_def)
  have "x < 2 powi (c + 53)"
    using assms(1,4) by linarith
  then have "expo x < c + 53"
    using x by (intro expo_less)
  then have m: "m \<le> c"
    using assms(3) x by (simp add: m_def)
  have "(2 :: real) powi c = 2 powi (c - m) * 2 powi m"
    by (simp add: power_int_add [symmetric])
  also have "\<dots> = 2 ^ nat (c - m) * u"
    using m by (simp add: power_int_def u_def)
  finally have d: "of_int N * 2 powi c = of_int (N * 2 ^ nat (c - m)) * u"
    by simp
  have "x / u \<le> of_int (N * 2 ^ nat (c - m))"
    using assms(1) u unfolding d by (simp add: field_simps)
  then have "rne (x / u) \<le> N * 2 ^ nat (c - m)"
    by (rule rne_le_int)
  then have "(of_int (rne (x / u)) :: real) \<le> of_int (N * 2 ^ nat (c - m))"
    by (simp only: of_int_le_iff)
  then have "of_int (rne (x / u)) * u \<le> of_int (N * 2 ^ nat (c - m)) * u"
    using u by (simp only: mult_le_cancel_right_pos)
  moreover have "fl x = of_int (rne (x / u)) * u"
    using x by (simp add: fl_def Let_def u_def m_def)
  ultimately show ?thesis
    unfolding d by simp
qed

lemma fl_le_1: "x \<le> 1 \<Longrightarrow> fl x \<le> 1"
  using fl_le_double [of x 1 0] by simp

lemma fl_le_million: "x \<le> 1000000 \<Longrightarrow> fl x \<le> 1000000"
  using fl_le_double [of x 15625 6] by simp








lemma seededRandom_double_bounds:
  "0 \<le> seededRandom_double s" "seededRandom_double s \<le> 1000000"
proof -
  define x where "x = fl (s * 10000)"
  have w: "0 \<le> x - of_int \<lfloor>x\<rfloor>" "x - of_int \<lfloor>x\<rfloor> \<le> 1"
    using floor_correct [of x] by linarith+
  have y: "0 \<le> fl (x - of_int \<lfloor>x\<rfloor>)" "fl (x - of_int \<lfloor>x\<rfloor>) \<le> 1"
    using w by (simp_all add: fl_nonneg fl_le_1)
  have "0 \<le> fl (fl (x - of_int \<lfloor>x\<rfloor>) * 1000000)"
    using y(1) by (intro fl_nonneg) simp
  then show "0 \<le> seededRandom_double s"
    by (simp add: seededRandom_double_def Let_def x_def)
  have "fl (fl (x - of_int \<lfloor>x\<rfloor>) * 1000000) \<le> 1000000"
    using y(2) by (intro fl_le_million) simp
  then have "\<lfloor>fl (fl (x - of_int \<lfloor>x\<rfloor>) * 1000000)\<rfloor> \<le> \<lfloor>1000000 :: real\<rfloor>"
    by (rule floor_mono)
  then show "seededRandom_double s \<le> 1000000"
    by (simp add: seededRandom_double_def Let_def x_def)
qed


section \<open>Remainders, samples and the clamp\<close>

lemma n_mod_int:
  assumes "0 \<le> a" "0 < b"
  shows "n_mod (Fin (of_int a)) (Fin (of_int b)) = Fin (of_int (a mod b))"
proof -
  have q: "0 \<le> (of_int a :: real) / of_int b"
    using assms by simp
  have "trunc_zero (of_int a / of_int b) = a div b"
    using q by (simp add: trunc_zero_def floor_divide_of_int_eq)
  moreover have "a - b * (a div b) = a mod b"
    by (simp add: minus_mult_div_eq_mod)
  ultimately have "(of_int a :: real) - of_int b * of_int (trunc_zero (of_int a / of_int b))
      = of_int (a mod b)"
    by (metis of_int_diff of_int_mult)
  then show ?thesis
    using assms by simp
qed

lemma n_mod_25: "0 \<le> h \<Longrightarrow> n_mod (Fin (of_int h)) (Fin 25) = Fin (of_int (h mod 25))"
  using n_mod_int [of h 25] by simp

lemma n_mod_10: "0 \<le> h \<Longrightarrow> n_mod (Fin (of_int h)) (Fin 10) = Fin (of_int (h mod 10))"
  using n_mod_int [of h 10] by simp

lemma seededRandom_Fin:
  "seededRandom M (Fin a) = Fin (of_int (seededRandom_double (m_sin M a)))"
  by (simp add: seededRandom_def seededRandom_double_def Let_def n_sub_def)

lemma seededRandom_double_0: "seededRandom_double 0 = 0"
  by (simp add: seededRandom_double_def fl_def)








lemma uniform_sample:
  "\<exists>r. n_div (n_mod (seededRandom M (Fin a)) (Fin 1000)) (Fin 1000) = Fin r
       \<and> 0 \<le> r \<and> r < 1 \<and> r \<in> \<rat>"
proof -
  define k where "k = seededRandom_double (m_sin M a)"
  have k: "0 \<le> k"
    unfolding k_def by (rule seededRandom_double_bounds)
  have "n_mod (seededRandom M (Fin a)) (Fin (of_int 1000)) = Fin (of_int (k mod 1000))"
    unfolding seededRandom_Fin k_def [symmetric] using k by (intro n_mod_int) simp_all
  then have "n_div (n_mod (seededRandom M (Fin a)) (Fin 1000)) (Fin 1000)
      = Fin (of_int (k mod 1000) / 1000)"
    by simp
  moreover have "0 \<le> (of_int (k mod 1000) :: real) / 1000"
    by simp
  moreover have "(of_int (k mod 1000) :: real) / 1000 < 1"
  proof -
    have "k mod 1000 < 1000" by simp
    then have "(of_int (k mod 1000) :: real) < 1000" by linarith
    then show ?thesis by simp
  qed
  moreover have "(of_int (k mod 1000) :: real) / 1000 \<in> \<rat>"
    by (intro Rats_divide Rats_of_int Rats_number_of)
  ultimately show ?thesis by blast
qed

lemma clamp_Fin:
  assumes "v \<noteq> NaN" "lo \<le> hi"
  shows "\<exists>r. Math_max (Fin lo) (Math_min (Fin hi) v) = Fin r \<and> lo \<le> r \<and> r \<le> hi"
  using assms by (cases v) (auto simp: Math_max_def Math_min_def)

lemma cosine_argument:
  assumes "r2 \<in> \<rat>"
  shows "\<exists>x. n_mul (n_mul (Fin 2) Math_PI) (Fin r2) = Fin x \<and> x \<in> \<rat>"
proof -
  have "2 * (884279719003555 / 281474976710656) * r2 \<in> \<rat>"
    by (intro Rats_mult Rats_divide Rats_number_of assms)
  then show ?thesis
    unfolding Math_PI_def n_mul.simps by blast
qed

lemma scaled_not_NaN:
  assumes "Math_regular M" "0 \<le> r1" "r1 < 1" "x \<in> \<rat>"
  shows "n_add (n_mul (n_mul (Math_sqrt M (n_mul (Fin (- 2)) (Math_log M (Fin r1))))
                             (Math_cos M (Fin x)))
                      (Fin (12 / 10))) (Fin mean) \<noteq> NaN"
proof (cases "r1 = 0")
  case True
  have "m_cos M x \<noteq> 0"
    using assms(1,4) by (simp add: Math_regular_def)
  then show ?thesis
    using True by simp
next
  case False
  then have "m_log M r1 \<le> 0"
    using assms by (simp add: Math_regular_def)
  then show ?thesis
    using False assms(2) by simp
qed

lemma normalDistribution_range:
  assumes "Math_regular M" "lo \<le> hi"
  shows "\<exists>r. normalDistribution M (Fin a) (Fin lo) (Fin hi) (Fin mean) = Fin r \<and> lo \<le> r \<and> r \<le> hi"
proof -
  obtain r1 where r1: "n_div (n_mod (seededRandom M (Fin a)) (Fin 1000)) (Fin 1000) = Fin r1"
      "0 \<le> r1" "r1 < 1"
    using uniform_sample by blast
  obtain r2 where r2: "n_div (n_mod (seededRandom M (Fin (a + 1))) (Fin 1000)) (Fin 1000) = Fin r2"
      "r2 \<in> \<rat>"
    using uniform_sample by blast
  obtain x where x: "n_mul (n_mul (Fin 2) Math_PI) (Fin r2) = Fin x" "x \<in> \<rat>"
    using cosine_argument [OF r2(2)] by blast
  have s: "n_add (Fin a) (Fin 1) = Fin (a + 1)"
    by simp
  show ?thesis
    unfolding normalDistribution_def Let_def s r1(1) r2(1) x(1)
    using clamp_Fin [OF scaled_not_NaN [OF assms(1) r1(2,3) x(2)] assms(2)]
    by blast
qed

lemma round1_code: "n_div (Math_round (n_mul v (Fin 10))) (Fin 10) = round1 v"
  by (cases v) (simp_all add: round1_def round_def)

lemma round1_range:
  assumes "of_int a / 10 \<le> v" "v \<le> of_int b / 10"
  shows "\<exists>m. round1 (Fin v) = Fin m \<and> of_int a / 10 \<le> m \<and> m \<le> of_int b / 10"
proof -
  define k where "k = round (v * 10)"
  have "of_int a \<le> v * 10 + 1 / 2"
    using assms(1) by simp
  then have "a \<le> k"
    by (simp add: k_def round_def le_floor_iff)
  then have lo: "(of_int a :: real) \<le> of_int k"
    by linarith
  have "v * 10 + 1 / 2 < of_int (b + 1)"
    using assms(2) by simp
  then have "k < b + 1"
    by (simp only: k_def round_def floor_less_iff)
  then have hi: "(of_int k :: real) \<le> of_int b"
    by linarith
  have "round1 (Fin v) = Fin (of_int k / 10)"
    by (simp add: round1_def k_def)
  moreover have "(of_int a :: real) / 10 \<le> of_int k / 10"
    using lo by simp
  moreover have "(of_int k :: real) / 10 \<le> of_int b / 10"
    using hi by simp
  ultimately show ?thesis
    by blast
qed

lemma confidence_int:
  assumes "0 \<le> h"
  shows "Math_floor (n_add (Fin 75) (n_mod (Fin (of_int h)) (Fin 25))) = Fin (of_int (75 + h mod 25))"
  by (simp add: n_mod_25 [OF assms] del: n_mod.simps)

lemma useMetric_int:
  assumes "0 \<le> h"
  shows "strict_eq (n_mod (Fin (of_int h)) (Fin 10)) (Fin 0) = (h mod 10 = 0)"
  by (simp add: n_mod_10 [OF assms] strict_eq_def del: n_mod.simps)

lemma confidence_bounds: "75 \<le> 75 + (h :: int) mod 25" "75 + (h :: int) mod 25 \<le> 99"
proof -
  have "0 \<le> h mod 25" "h mod 25 < 25"
    by simp_all
  then show "75 \<le> 75 + h mod 25" "75 + h mod 25 \<le> 99"
    by linarith+
qed

lemma Math_flat_regular: "Math_regular Math_flat"
  by (simp add: Math_regular_def Math_flat_def)

section \<open>The generated results\<close>

lemma generateResults_fields:
  "r_originalSize (generateResults M this s)
     = round1 (normalDistribution M (hashUsername s) (Fin 1) (Fin 13) (Fin (65 / 10)))"
  "r_confidence (generateResults M this s) = Fin (of_int (75 + hash_spec s mod 25))"
  "r_unit (generateResults M this s) = (if hash_spec s mod 10 = 0 then ''cm'' else ''inches'')"
  "r_size (generateResults M this s)
     = (if hash_spec s mod 10 = 0
        then round1 (n_mul (r_originalSize (generateResults M this s)) (Fin (254 / 100)))
        else r_originalSize (generateResults M this s))"
  "r_percentile (generateResults M this s)
     = calculatePercentile (r_originalSize (generateResults M this s))"
  "r_description (generateResults M this s)
     = getDescriptionForSize this (r_originalSize (generateResults M this s)) (hashUsername s)"
  using hash_spec_bounds(1) [of s]
  by (simp_all add: generateResults_def Let_def round1_code hashUsername_word confidence_int
      useMetric_int del: n_mod.simps)

lemma generateResults_2_fields:
  "r_confidence (generateResults_2 M this s) = Fin (of_int (75 + hash_spec s mod 25))"
  "r_unit (generateResults_2 M this s) = (if hash_spec s mod 10 = 0 then ''cm'' else ''inches'')"
  "r_size (generateResults_2 M this s)
     = (if hash_spec s mod 10 = 0
        then round1 (n_mul (round1 (normalDistribution M (hashUsername s) (Fin 3) (Fin 10)
                                      (Fin (65 / 10)))) (Fin (254 / 100)))
        else round1 (normalDistribution M (hashUsername s) (Fin 3) (Fin 10) (Fin (65 / 10))))"
  using hash_spec_bounds(1) [of s]
  by (simp_all add: generateResults_2_def Let_def round1_code hashUsername_2_word
      hashUsername_word confidence_int useMetric_int del: n_mod.simps)

lemma generateResults_hash:
  "hash_spec s = hash_spec t \<Longrightarrow> generateResults M this s = generateResults M this t"
  by (simp add: generateResults_def hashUsername_word)

lemma generateResults_2_hash:
  "hash_spec s = hash_spec t \<Longrightarrow> generateResults_2 M this s = generateResults_2 M this t"
  by (simp add: generateResults_2_def hashUsername_2_word)

text \<open>
  C1. Two invocations of \<^verbatim>\<open>generateResults\<close> on a valid username return the same record,
  field by field, in either copy. The method reads the username, the category table of
  the object and the functions of the host, and writes nothing: whatever else the object
  holds at the second invocation (the results stored by \<^verbatim>\<open>displayResults\<close>, or none after
  \<^verbatim>\<open>resetToInitialState\<close>), the record is the one of the first invocation.
\<close>

theorem generateResults_deterministic:
  assumes "isValidUsername s"
    and "humorousDescriptions this' = humorousDescriptions this"
    and "humorousDescriptions this2' = humorousDescriptions this2"
  shows "generateResults M this' s = generateResults M this s
       \<and> generateResults_2 M this2' s = generateResults_2 M this2 s"
  using assms(2,3)
  by (simp add: generateResults_def generateResults_2_def getDescriptionForSize_def)

theorem generateResults_deterministic_witness:
  "isValidUsername ''alice''
   \<and> generateResults Math_flat
        (displayResults DickSizeChecker ''alice''
           (generateResults Math_flat DickSizeChecker ''alice''))
        ''alice''
      = generateResults Math_flat DickSizeChecker ''alice''
   \<and> generateResults_2 Math_flat
        (displayResults DickSizeChecker_2 ''alice''
           (generateResults_2 Math_flat DickSizeChecker_2 ''alice''))
        ''alice''
      = generateResults_2 Math_flat DickSizeChecker_2 ''alice''"
proof -
  have a: "humorousDescriptions
        (displayResults DickSizeChecker ''alice''
           (generateResults Math_flat DickSizeChecker ''alice''))
      = humorousDescriptions DickSizeChecker"
    by (simp add: displayResults_def)
  have b: "humorousDescriptions
        (displayResults DickSizeChecker_2 ''alice''
           (generateResults_2 Math_flat DickSizeChecker_2 ''alice''))
      = humorousDescriptions DickSizeChecker_2"
    by (simp add: displayResults_def)
  show ?thesis
    using generateResults_deterministic [OF valid_alice a b, of Math_flat] valid_alice
    by blast
qed

text \<open>
  C2. For a valid username the results do not depend on the case of its letters: the
  username, its lower-cased form and its upper-cased form give the same record, in
  either copy, because the hash is taken of the lower-cased string.
\<close>

theorem generateResults_case_insensitive:
  assumes "isValidUsername s"
  shows "generateResults M this (toLowerCase s) = generateResults M this s
       \<and> generateResults M this (toUpperCase s) = generateResults M this s
       \<and> generateResults_2 M this2 (toLowerCase s) = generateResults_2 M this2 s
       \<and> generateResults_2 M this2 (toUpperCase s) = generateResults_2 M this2 s"
  using generateResults_hash [OF hash_spec_lower] generateResults_hash [OF hash_spec_upper]
    generateResults_2_hash [OF hash_spec_lower] generateResults_2_hash [OF hash_spec_upper]
  by blast

theorem generateResults_case_insensitive_witness:
  "isValidUsername ''Foo''
   \<and> generateResults Math_flat DickSizeChecker ''foo''
       = generateResults Math_flat DickSizeChecker ''Foo''
   \<and> generateResults Math_flat DickSizeChecker ''FOO''
       = generateResults Math_flat DickSizeChecker ''Foo''
   \<and> generateResults_2 Math_flat DickSizeChecker_2 ''foo''
       = generateResults_2 Math_flat DickSizeChecker_2 ''Foo''
   \<and> generateResults_2 Math_flat DickSizeChecker_2 ''FOO''
       = generateResults_2 Math_flat DickSizeChecker_2 ''Foo''"
proof -
  have l: "toLowerCase ''Foo'' = ''foo''"
    by (simp add: toLowerCase_def toLowerCase_char_def char_of_def bit_iff_odd)
  have u: "toUpperCase ''Foo'' = ''FOO''"
    by (simp add: toUpperCase_def toUpperCase_char_def char_of_def bit_iff_odd)
  show ?thesis
    using generateResults_case_insensitive [OF valid_Foo, of Math_flat DickSizeChecker
        DickSizeChecker_2] valid_Foo
    unfolding l u by blast
qed

lemma originalSize_range:
  assumes "Math_regular M"
  shows "\<exists>m. r_originalSize (generateResults M this s) = Fin m \<and> 1 \<le> m \<and> m \<le> 13"
proof -
  obtain h where h: "hashUsername s = Fin h"
    using hashUsername_word by blast
  obtain v where v: "normalDistribution M (Fin h) (Fin 1) (Fin 13) (Fin (65 / 10)) = Fin v"
      "1 \<le> v" "v \<le> 13"
    using normalDistribution_range [OF assms, of 1 13 h "65 / 10"] by auto
  show ?thesis
    using round1_range [of 10 v 130] v
    by (simp add: generateResults_fields(1) h)
qed

lemma measurement_2_range:
  assumes "Math_regular M"
  shows "\<exists>m. round1 (normalDistribution M (hashUsername s) (Fin 3) (Fin 10) (Fin (65 / 10))) = Fin m
             \<and> 3 \<le> m \<and> m \<le> 10"
proof -
  obtain h where h: "hashUsername s = Fin h"
    using hashUsername_word by blast
  obtain v where v: "normalDistribution M (Fin h) (Fin 3) (Fin 10) (Fin (65 / 10)) = Fin v"
      "3 \<le> v" "v \<le> 10"
    using normalDistribution_range [OF assms, of 3 10 h "65 / 10"] by auto
  show ?thesis
    using round1_range [of 30 v 100] v
    by (simp add: h)
qed

text \<open>
  C3. On a host whose logarithm is not positive between 0 and 1 and whose cosine never
  returns zero, for every valid username the measurement before conversion is a number
  between 1 and 13 in the first copy and between 3 and 10 in the second, and the
  confidence is an integer between 75 and 99. The second copy returns the measurement
  in the field \<^verbatim>\<open>size\<close>, converted when the hash is a multiple of 10.
\<close>

theorem generateResults_ranges:
  assumes "isValidUsername s" and "Math_regular M"
  shows "(\<exists>m c. r_originalSize (generateResults M this s) = Fin m \<and> 1 \<le> m \<and> m \<le> 13
            \<and> r_confidence (generateResults M this s) = Fin (of_int c) \<and> 75 \<le> c \<and> c \<le> 99)
       \<and> (\<exists>m c. r_size (generateResults_2 M this2 s)
                  = (if hash_spec s mod 10 = 0 then round1 (n_mul (Fin m) (Fin (254 / 100)))
                     else Fin m)
            \<and> 3 \<le> m \<and> m \<le> 10
            \<and> r_confidence (generateResults_2 M this2 s) = Fin (of_int c) \<and> 75 \<le> c \<and> c \<le> 99)"
proof
  show "\<exists>m c. r_originalSize (generateResults M this s) = Fin m \<and> 1 \<le> m \<and> m \<le> 13
            \<and> r_confidence (generateResults M this s) = Fin (of_int c) \<and> 75 \<le> c \<and> c \<le> 99"
    using originalSize_range [OF assms(2), of this s] confidence_bounds [of "hash_spec s"]
    unfolding generateResults_fields(2) by blast
next
  obtain m where m:
      "round1 (normalDistribution M (hashUsername s) (Fin 3) (Fin 10) (Fin (65 / 10))) = Fin m"
      "3 \<le> m" "m \<le> 10"
    using measurement_2_range [OF assms(2)] by blast
  have "r_size (generateResults_2 M this2 s)
          = (if hash_spec s mod 10 = 0 then round1 (n_mul (Fin m) (Fin (254 / 100))) else Fin m)"
    unfolding generateResults_2_fields(3) m(1) ..
  then show "\<exists>m c. r_size (generateResults_2 M this2 s)
                  = (if hash_spec s mod 10 = 0 then round1 (n_mul (Fin m) (Fin (254 / 100)))
                     else Fin m)
            \<and> 3 \<le> m \<and> m \<le> 10
            \<and> r_confidence (generateResults_2 M this2 s) = Fin (of_int c) \<and> 75 \<le> c \<and> c \<le> 99"
    using m(2,3) confidence_bounds [of "hash_spec s"]
    unfolding generateResults_2_fields(1) by blast
qed

theorem generateResults_ranges_witness:
  "isValidUsername ''alice'' \<and> Math_regular Math_flat
   \<and> (\<exists>m c. r_originalSize (generateResults Math_flat DickSizeChecker ''alice'') = Fin m
          \<and> 1 \<le> m \<and> m \<le> 13
          \<and> r_confidence (generateResults Math_flat DickSizeChecker ''alice'') = Fin (of_int c)
          \<and> 75 \<le> c \<and> c \<le> 99)
   \<and> (\<exists>m c. r_size (generateResults_2 Math_flat DickSizeChecker_2 ''alice'')
                = (if hash_spec ''alice'' mod 10 = 0 then round1 (n_mul (Fin m) (Fin (254 / 100)))
                   else Fin m)
          \<and> 3 \<le> m \<and> m \<le> 10
          \<and> r_confidence (generateResults_2 Math_flat DickSizeChecker_2 ''alice'') = Fin (of_int c)
          \<and> 75 \<le> c \<and> c \<le> 99)"
  using generateResults_ranges [OF valid_alice Math_flat_regular, of DickSizeChecker
      DickSizeChecker_2] valid_alice Math_flat_regular
  by blast

text \<open>
  The hypothesis on the cosine cannot be dropped. On the host whose sine and cosine are
  0 both uniform samples are 0, the transform multiplies infinity by zero, and the
  measurement is \<^verbatim>\<open>NaN\<close>: the source does not guard the logarithm of 0.
\<close>

lemma measurement_NaN_on_zero_cosine:
  "r_originalSize (generateResults Math_zero_cosine DickSizeChecker ''alice'') = NaN"
  by (simp add: generateResults_fields(1) hashUsername_word normalDistribution_def
      seededRandom_Fin seededRandom_double_0 Let_def n_sub_def Math_zero_cosine_def
      Math_flat_def Math_PI_def
      trunc_zero_def Math_max_def Math_min_def round1_def)

lemma measurement_on_flat_host:
  "r_originalSize (generateResults Math_flat DickSizeChecker ''alice'') = Fin 13"
  "r_size (generateResults Math_flat DickSizeChecker ''alice'') = Fin 33"
  "r_confidence (generateResults Math_flat DickSizeChecker ''alice'') = Fin 90"
  "r_percentile (generateResults Math_flat DickSizeChecker ''alice'') = Fin 99"
proof -
  show m: "r_originalSize (generateResults Math_flat DickSizeChecker ''alice'') = Fin 13"
    by (simp add: generateResults_fields(1) hashUsername_word normalDistribution_def
        seededRandom_Fin seededRandom_double_0 Let_def n_sub_def Math_flat_def Math_PI_def
        trunc_zero_def
        Math_max_def Math_min_def round1_def round_def)
  show "r_size (generateResults Math_flat DickSizeChecker ''alice'') = Fin 33"
    by (simp add: generateResults_fields(4) m hash_spec_alice round1_def round_def)
  show "r_confidence (generateResults Math_flat DickSizeChecker ''alice'') = Fin 90"
    by (simp add: generateResults_fields(2) hash_spec_alice)
  show "r_percentile (generateResults Math_flat DickSizeChecker ''alice'') = Fin 99"
    by (simp add: generateResults_fields(5) m calculatePercentile_def Let_def n_sub_def n_ge_def)
qed

text \<open>
  C5. The unit is \<^verbatim>\<open>cm\<close> exactly when the hash of the username is a multiple of 10, in
  either copy. In that case the displayed size of the first copy is the measurement
  times 2.54 rounded to one decimal; otherwise the unit is \<^verbatim>\<open>inches\<close> and the displayed
  size is the measurement itself.
\<close>

theorem unit_selection:
  "\<exists>h. hashUsername s = Fin (of_int h) \<and> 0 \<le> h
     \<and> (r_unit (generateResults M this s) = ''cm'' \<longleftrightarrow> h mod 10 = 0)
     \<and> (h mod 10 = 0 \<longrightarrow>
          r_size (generateResults M this s)
            = round1 (n_mul (r_originalSize (generateResults M this s)) (Fin (254 / 100))))
     \<and> (h mod 10 \<noteq> 0 \<longrightarrow>
          r_unit (generateResults M this s) = ''inches''
          \<and> r_size (generateResults M this s) = r_originalSize (generateResults M this s))
     \<and> (r_unit (generateResults_2 M this2 s) = ''cm'' \<longleftrightarrow> h mod 10 = 0)
     \<and> (h mod 10 \<noteq> 0 \<longrightarrow> r_unit (generateResults_2 M this2 s) = ''inches'')"
proof (intro exI [of _ "hash_spec s"] conjI)
  show "hashUsername s = Fin (of_int (hash_spec s))"
    by (rule hashUsername_word)
  show "0 \<le> hash_spec s"
    by (rule hash_spec_bounds)
  show "r_unit (generateResults M this s) = ''cm'' \<longleftrightarrow> hash_spec s mod 10 = 0"
    by (simp add: generateResults_fields(3))
  show "hash_spec s mod 10 = 0 \<longrightarrow>
          r_size (generateResults M this s)
            = round1 (n_mul (r_originalSize (generateResults M this s)) (Fin (254 / 100)))"
    using generateResults_fields(4) [of M this s] by simp
  show "hash_spec s mod 10 \<noteq> 0 \<longrightarrow>
          r_unit (generateResults M this s) = ''inches''
          \<and> r_size (generateResults M this s) = r_originalSize (generateResults M this s)"
    using generateResults_fields(4) [of M this s] by (simp add: generateResults_fields(3))
  show "r_unit (generateResults_2 M this2 s) = ''cm'' \<longleftrightarrow> hash_spec s mod 10 = 0"
    by (simp add: generateResults_2_fields(2))
  show "hash_spec s mod 10 \<noteq> 0 \<longrightarrow> r_unit (generateResults_2 M this2 s) = ''inches''"
    by (simp add: generateResults_2_fields(2))
qed

theorem unit_selection_witness:
  "r_unit (generateResults Math_flat DickSizeChecker ''alice'') = ''cm''
   \<and> r_size (generateResults Math_flat DickSizeChecker ''alice'')
       = round1 (n_mul (r_originalSize (generateResults Math_flat DickSizeChecker ''alice''))
                       (Fin (254 / 100)))
   \<and> r_unit (generateResults_2 Math_flat DickSizeChecker_2 ''alice'') = ''cm''
   \<and> r_unit (generateResults Math_flat DickSizeChecker ''bob'') = ''inches''
   \<and> r_size (generateResults Math_flat DickSizeChecker ''bob'')
       = r_originalSize (generateResults Math_flat DickSizeChecker ''bob'')
   \<and> r_unit (generateResults_2 Math_flat DickSizeChecker_2 ''bob'') = ''inches''"
proof -
  have a: "hashUsername ''alice'' = Fin (of_int h) \<longleftrightarrow> h = 92903040" for h
    by (simp add: hashUsername_word hash_spec_alice)
  have b: "hashUsername ''bob'' = Fin (of_int h) \<longleftrightarrow> h = 97717" for h
    by (simp add: hashUsername_word hash_spec_bob)
  show ?thesis
    using unit_selection [of "''alice''" Math_flat DickSizeChecker DickSizeChecker_2]
      unit_selection [of "''bob''" Math_flat DickSizeChecker DickSizeChecker_2]
    unfolding a b by auto
qed

section \<open>The percentile\<close>

text \<open>
  C7. For every measurement \<^verbatim>\<open>calculatePercentile\<close> returns the percentile of the
  specification, an integer between 1 and 99: 1 when the z-score \<open>(m - 6.5) / 2\<close> is at
  most \<open>-3\<close>, 99 when it is at least 3, and otherwise \<open>round (50 + z * 16.67)\<close> clamped
  to 1 and 99. The infinities fall in the tails.
\<close>

theorem calculatePercentile_range:
  "calculatePercentile (Fin m) = Fin (of_int (percentile_spec m))
   \<and> 1 \<le> percentile_spec m \<and> percentile_spec m \<le> 99
   \<and> calculatePercentile NegInf = Fin 1
   \<and> calculatePercentile PosInf = Fin 99"
proof -
  have "calculatePercentile (Fin m) = Fin (of_int (percentile_spec m))"
    by (simp add: calculatePercentile_def percentile_spec_def Let_def n_sub_def n_ge_def
        Math_max_def Math_min_def round_def)
  moreover have "1 \<le> percentile_spec m" "percentile_spec m \<le> 99"
    by (simp_all add: percentile_spec_def Let_def)
  moreover have "calculatePercentile NegInf = Fin 1" "calculatePercentile PosInf = Fin 99"
    by (simp_all add: calculatePercentile_def Let_def n_sub_def n_ge_def)
  ultimately show ?thesis by simp
qed

text \<open>
  A value that is not a number is not a measurement; the percentile passes it on.
\<close>

lemma calculatePercentile_NaN: "calculatePercentile NaN = NaN"
  by (simp add: calculatePercentile_def Let_def n_sub_def n_ge_def Math_max_def Math_min_def)

lemma calculatePercentile_examples:
  "calculatePercentile (Fin (65 / 10)) = Fin 50"
  "calculatePercentile (Fin 1) = Fin 4"
  "calculatePercentile (Fin 13) = Fin 99"
  by (simp_all add: calculatePercentile_def Let_def n_sub_def n_ge_def Math_max_def Math_min_def)

section \<open>Descriptions and categories\<close>

lemma getDescriptionLoop_find:
  "getDescriptionLoop cs size' hash =
     (case find (in_range size') cs of
        None \<Rightarrow> Some fallback
      | Some category \<Rightarrow>
          array_get (descriptions category)
            (n_mod hash (Fin (real (length (descriptions category))))))"
  by (induction cs) (simp_all add: Let_def)

lemma array_get_mod:
  assumes "xs \<noteq> []"
  shows "array_get xs (n_mod (Fin (real h)) (Fin (real (length xs)))) = Some (xs ! (h mod length xs))"
proof -
  have "n_mod (Fin (of_int (int h))) (Fin (of_int (int (length xs))))
          = Fin (of_int (int h mod int (length xs)))"
    using assms by (intro n_mod_int) simp_all
  moreover have "real_of_int (int h mod int (length xs)) = real (h mod length xs)"
    by (simp only: zmod_int [symmetric] of_int_of_nat_eq)
  ultimately have m: "n_mod (Fin (real h)) (Fin (real (length xs))) = Fin (real (h mod length xs))"
    by (simp del: n_mod.simps)
  have "h mod length xs < length xs"
    using assms by simp
  then show ?thesis
    unfolding m by simp
qed

lemma getDescriptionLoop_nonempty:
  assumes "list_all (\<lambda>c. descriptions c \<noteq> []) cs"
  shows "getDescriptionLoop cs size' (Fin (real h)) =
     Some (case find (in_range size') cs of
             None \<Rightarrow> fallback
           | Some category \<Rightarrow> descriptions category ! (h mod length (descriptions category)))"
  using assms
  by (induction cs) (simp_all add: Let_def array_get_mod del: n_mod.simps array_get.simps)

lemma descriptions_nonempty_1: "list_all (\<lambda>c. descriptions c \<noteq> []) humorousDescriptions_1"
  by (simp add: humorousDescriptions_1_def)

lemma descriptions_nonempty_2: "list_all (\<lambda>c. descriptions c \<noteq> []) humorousDescriptions_2"
  by (simp add: humorousDescriptions_2_def)

text \<open>
  C8. \<^verbatim>\<open>getDescriptionForSize\<close> is total and has no failing branch. For any size and hash
  it takes the first category of the list whose closed range contains the size and reads
  its descriptions at the hash modulo their number; when no category matches, it returns
  the fallback string. On the tables of both copies, for any size (finite or not) and any
  hash (a non-negative integer), the result is a string: the description at
  \<open>h mod length\<close> of the first matching category, or the fallback.
\<close>

theorem getDescriptionForSize_total:
  "getDescriptionForSize this size' hash =
     (case find (in_range size') (humorousDescriptions this) of
        None \<Rightarrow> Some fallback
      | Some category \<Rightarrow>
          array_get (descriptions category)
            (n_mod hash (Fin (real (length (descriptions category))))))
   \<and> getDescriptionForSize DickSizeChecker size' (Fin (real h)) =
       Some (case find (in_range size') (humorousDescriptions DickSizeChecker) of
               None \<Rightarrow> fallback
             | Some category \<Rightarrow> descriptions category ! (h mod length (descriptions category)))
   \<and> getDescriptionForSize DickSizeChecker_2 size' (Fin (real h)) =
       Some (case find (in_range size') (humorousDescriptions DickSizeChecker_2) of
               None \<Rightarrow> fallback
             | Some category \<Rightarrow> descriptions category ! (h mod length (descriptions category)))"
proof -
  have 1: "humorousDescriptions DickSizeChecker = humorousDescriptions_1"
    by (simp add: DickSizeChecker_def)
  have 2: "humorousDescriptions DickSizeChecker_2 = humorousDescriptions_2"
    by (simp add: DickSizeChecker_2_def)
  show ?thesis
    unfolding getDescriptionForSize_def 1 2
    using getDescriptionLoop_find [of "humorousDescriptions this" size' hash]
      getDescriptionLoop_nonempty [OF descriptions_nonempty_1, of size' h]
      getDescriptionLoop_nonempty [OF descriptions_nonempty_2, of size' h]
    by blast
qed

text \<open>
  Some evaluations. A size between two tenths, such as 2.55, lies in no range and gets
  the fallback, and so does \<^verbatim>\<open>NaN\<close>; sizes rounded to one decimal never do, as shown
  further down.
\<close>

lemma getDescriptionForSize_examples:
  "getDescriptionForSize DickSizeChecker (Fin (65 / 10)) (Fin 5) =
     Some ''Impressive balance! Perfect mix of confidence and humility. The Swiss Army knife of personalities! <U+1F527>''"
  "getDescriptionForSize DickSizeChecker (Fin (255 / 100)) (Fin 5) = Some fallback"
  "getDescriptionForSize DickSizeChecker NaN (Fin 5) = Some fallback"
  "getDescriptionForSize DickSizeChecker_2 (Fin 3) (Fin 0) =
     Some ''Small but mighty! Like a fun-size candy bar - concentrated goodness that packs a punch. Quality over quantity, my friend! <U+1F36C>''"
  by (simp_all add: getDescriptionForSize_def DickSizeChecker_def DickSizeChecker_2_def
      humorousDescriptions_1_def humorousDescriptions_2_def in_range_def n_ge_def Let_def
      trunc_zero_def)

lemma cranges_1:
  "map crange humorousDescriptions_1 =
     [(1, 25 / 10), (26 / 10, 4), (41 / 10, 55 / 10), (56 / 10, 7), (71 / 10, 85 / 10),
      (86 / 10, 10), (101 / 10, 115 / 10), (116 / 10, 13)]"
  by (simp add: humorousDescriptions_1_def)

lemma cranges_2:
  "map crange humorousDescriptions_2 =
     [(3, 4), (41 / 10, 55 / 10), (56 / 10, 7), (71 / 10, 85 / 10), (86 / 10, 10)]"
  by (simp add: humorousDescriptions_2_def)

lemma matches_cranges:
  "length (filter (in_range (Fin x)) cs)
     = length (filter (\<lambda>r. fst r \<le> x \<and> x \<le> snd r) (map crange cs))"
  by (induction cs) (simp_all add: in_range_def n_ge_def)

lemma coverage_1:
  assumes "10 \<le> k" "k \<le> 130"
  shows "length (filter (in_range (Fin (of_int k / 10))) humorousDescriptions_1) = 1"
proof -
  consider "k \<le> 25" | "26 \<le> k \<and> k \<le> 40" | "41 \<le> k \<and> k \<le> 55" | "56 \<le> k \<and> k \<le> 70"
    | "71 \<le> k \<and> k \<le> 85" | "86 \<le> k \<and> k \<le> 100" | "101 \<le> k \<and> k \<le> 115" | "116 \<le> k"
    by linarith
  then show ?thesis
    using assms unfolding matches_cranges cranges_1
    by cases simp_all
qed

lemma coverage_2:
  assumes "30 \<le> k" "k \<le> 100"
  shows "length (filter (in_range (Fin (of_int k / 10))) humorousDescriptions_2) = 1"
proof -
  consider "k \<le> 40" | "41 \<le> k \<and> k \<le> 55" | "56 \<le> k \<and> k \<le> 70"
    | "71 \<le> k \<and> k \<le> 85" | "86 \<le> k"
    by linarith
  then show ?thesis
    using assms unfolding matches_cranges cranges_2
    by cases simp_all
qed

lemma contiguous_1:
  "contiguous humorousDescriptions_1"
  "fst (crange (hd humorousDescriptions_1)) = 1"
  "snd (crange (last humorousDescriptions_1)) = 13"
  by (simp_all add: humorousDescriptions_1_def)

lemma contiguous_2:
  "contiguous humorousDescriptions_2"
  "fst (crange (hd humorousDescriptions_2)) = 3"
  "snd (crange (last humorousDescriptions_2)) = 10"
  by (simp_all add: humorousDescriptions_2_def)

text \<open>
  C4. Every multiple of one tenth from 1 to 13 lies in the closed range of exactly one
  category of the first table, and every multiple of one tenth from 3 to 10 in exactly
  one of the second. On that grid the ranges leave no gap and do not overlap: the first
  range starts at the minimum, each next one starts a tenth after the one before ends,
  and the last one ends at the maximum.
\<close>

theorem category_coverage:
  "(\<forall>k \<in> {10 .. 130 :: int}.
      length (filter (in_range (Fin (of_int k / 10))) (humorousDescriptions DickSizeChecker)) = 1)
   \<and> (\<forall>k \<in> {30 .. 100 :: int}.
      length (filter (in_range (Fin (of_int k / 10))) (humorousDescriptions DickSizeChecker_2)) = 1)
   \<and> contiguous (humorousDescriptions DickSizeChecker)
   \<and> fst (crange (hd (humorousDescriptions DickSizeChecker))) = 1
   \<and> snd (crange (last (humorousDescriptions DickSizeChecker))) = 13
   \<and> contiguous (humorousDescriptions DickSizeChecker_2)
   \<and> fst (crange (hd (humorousDescriptions DickSizeChecker_2))) = 3
   \<and> snd (crange (last (humorousDescriptions DickSizeChecker_2))) = 10"
proof -
  have 1: "humorousDescriptions DickSizeChecker = humorousDescriptions_1"
    by (simp add: DickSizeChecker_def)
  have 2: "humorousDescriptions DickSizeChecker_2 = humorousDescriptions_2"
    by (simp add: DickSizeChecker_2_def)
  show ?thesis
    unfolding 1 2
    using coverage_1 coverage_2 contiguous_1 contiguous_2
    by simp
qed

theorem category_coverage_witness:
  "length (filter (in_range (Fin (25 / 10))) (humorousDescriptions DickSizeChecker)) = 1
   \<and> length (filter (in_range (Fin (26 / 10))) (humorousDescriptions DickSizeChecker)) = 1
   \<and> length (filter (in_range (Fin (41 / 10))) (humorousDescriptions DickSizeChecker_2)) = 1"
proof -
  have "(25 :: int) \<in> {10 .. 130}" "(26 :: int) \<in> {10 .. 130}" "(41 :: int) \<in> {30 .. 100}"
    by simp_all
  then show ?thesis
    using category_coverage by fastforce
qed

end
